theory Spec2Isabelle
  imports Complex_Main
begin

section \<open>src/log-update.ts: the terminal renderer\<close>

subsection \<open>Strings, terminal primitives and effects\<close>

text \<open>
  JavaScript's \<open>str.split('\n')\<close>: the pieces between the newline characters. The result
  is never empty: the empty string gives one empty line, and a trailing newline gives a
  trailing empty line.
\<close>

fun js_split :: "string \<Rightarrow> string list" where
  "js_split [] = [[]]"
| "js_split (c # cs) =
     (if c = CHR 0x0A then [] # js_split cs
      else (case js_split cs of [] \<Rightarrow> [[c]] | l # ls \<Rightarrow> (c # l) # ls))"

text \<open>
  JavaScript's \<open>xs[i]\<close>: reading an array out of range gives \<open>undefined\<close>, here \<open>None\<close>.
\<close>

definition js_index :: "'a list \<Rightarrow> nat \<Rightarrow> 'a option" where
  "js_index xs i = (if i < length xs then Some (xs ! i) else None)"

text \<open>
  The pieces a write is concatenated from. The values of the \<open>ansi-escapes\<close> package
  (\<open>eraseLines(n)\<close>, \<open>cursorUp(n)\<close>, \<open>eraseLine\<close>, \<open>cursorNextLine\<close>) are kept symbolic:
  the package is not part of this repository. \<open>Str\<close> is a string of the program itself
  (the output, one of its lines, or the literal \<open>'\n'\<close>). A write of \<open>a + b\<close> or of
  \<open>buffer.join('')\<close> is the list of its pieces in order.
\<close>

datatype chunk =
    EraseLines nat
  | CursorUp int
  | EraseLine
  | CursorNextLine
  | Str string

text \<open>
  What a renderer does to the outside world, in order: \<open>stream.write(...)\<close>,
  \<open>cliCursor.hide()\<close> and \<open>cliCursor.show()\<close>.
\<close>

datatype effect = Write "chunk list" | Hide | Show

text \<open>
  The variables the closures of \<open>createStandard\<close> and \<open>createIncremental\<close> share:
  the option \<open>showCursor\<close> (fixed at construction), \<open>previousOutput\<close>, \<open>hasHiddenCursor\<close>,
  and the effects performed so far. Standard mode adds \<open>previousLineCount\<close>, incremental
  mode adds \<open>previousLines\<close>.
\<close>

record renderer =
  showCursor :: bool
  previousOutput :: string
  hasHiddenCursor :: bool
  effects :: "effect list"

record standard = renderer +
  previousLineCount :: nat

record incremental = renderer +
  previousLines :: "string list"

subsection \<open>createStandard\<close>

definition createStandard :: "bool \<Rightarrow> standard" where
  "createStandard sc =
     \<lparr>showCursor = sc, previousOutput = [], hasHiddenCursor = False, effects = [],
      previousLineCount = 0\<rparr>"

definition standard_render :: "standard \<Rightarrow> string \<Rightarrow> standard" where
  "standard_render s0 str =
     (let s = (if \<not> showCursor s0 \<and> \<not> hasHiddenCursor s0
               then s0\<lparr>effects := effects s0 @ [Hide], hasHiddenCursor := True\<rparr>
               else s0);
          output = str
      in if output = previousOutput s then s
         else s\<lparr>previousOutput := output,
                effects := effects s @ [Write [EraseLines (previousLineCount s), Str output]],
                previousLineCount := length (js_split output)\<rparr>)"

definition standard_clear :: "standard \<Rightarrow> standard" where
  "standard_clear s =
     s\<lparr>effects := effects s @ [Write [EraseLines (previousLineCount s)]],
       previousOutput := [],
       previousLineCount := 0\<rparr>"

definition standard_done :: "standard \<Rightarrow> standard" where
  "standard_done s0 =
     (let s1 = (if length (previousOutput s0) > 0
                then s0\<lparr>effects := effects s0 @ [Write [Str [CHR 0x0A]]]\<rparr>
                else s0);
          s2 = s1\<lparr>previousOutput := [], previousLineCount := 0\<rparr>
      in if \<not> showCursor s2
         then s2\<lparr>effects := effects s2 @ [Show], hasHiddenCursor := False\<rparr>
         else s2)"

definition standard_sync :: "standard \<Rightarrow> string \<Rightarrow> standard" where
  "standard_sync s str =
     (let output = str
      in s\<lparr>previousOutput := output, previousLineCount := length (js_split output)\<rparr>)"

subsection \<open>createIncremental\<close>

definition createIncremental :: "bool \<Rightarrow> incremental" where
  "createIncremental sc =
     \<lparr>showCursor = sc, previousOutput = [], hasHiddenCursor = False, effects = [],
      previousLines = []\<rparr>"

text \<open>
  The \<open>for\<close> loop of the incremental \<open>render\<close>, from index \<open>i\<close> on, appending to \<open>buffer\<close>.
  \<open>nextLines[i] !== previousLines[i]\<close> compares a line with \<open>undefined\<close> when the previous
  output had fewer lines; \<open>nextLines[i] ?? ''\<close> is the line, or the empty string.
\<close>

function render_loop ::
  "nat \<Rightarrow> nat \<Rightarrow> string list \<Rightarrow> string list \<Rightarrow> chunk list \<Rightarrow> chunk list" where
  "render_loop i visibleCount nextLines prevLines buffer =
     (if i < visibleCount then
        (let contentChanged = (js_index nextLines i \<noteq> js_index prevLines i);
             buffer1 = (if contentChanged
                        then buffer @ [EraseLine,
                               Str (case js_index nextLines i of Some l \<Rightarrow> l | None \<Rightarrow> [])]
                        else buffer);
             buffer2 = (if int i < int visibleCount - 1
                        then buffer1 @ [if contentChanged then Str [CHR 0x0A] else CursorNextLine]
                        else buffer1)
         in render_loop (i + 1) visibleCount nextLines prevLines buffer2)
      else buffer)"
  by pat_completeness auto
termination
  by (relation "measure (\<lambda>(i, visibleCount, _). visibleCount - i)") auto

declare render_loop.simps [simp del]

definition incremental_render :: "incremental \<Rightarrow> string \<Rightarrow> incremental" where
  "incremental_render s0 str =
     (let s = (if \<not> showCursor s0 \<and> \<not> hasHiddenCursor s0
               then s0\<lparr>effects := effects s0 @ [Hide], hasHiddenCursor := True\<rparr>
               else s0);
          output = str
      in if output = previousOutput s then s
         else
           (let previousCount = length (previousLines s);
                nextLines = js_split output;
                nextCount = length nextLines;
                visibleCount = nextCount
            in if output = [] \<or> length (previousOutput s) = 0 then
                 s\<lparr>effects := effects s @ [Write [EraseLines previousCount, Str output]],
                   previousOutput := output,
                   previousLines := nextLines\<rparr>
               else
                 (let buffer0 =
                        (if nextCount < previousCount
                         then [EraseLines (previousCount - nextCount), CursorUp (int nextCount)]
                         else [CursorUp (int previousCount - 1)]);
                      buffer = render_loop 0 visibleCount nextLines (previousLines s) buffer0
                  in s\<lparr>effects := effects s @ [Write buffer],
                       previousOutput := output,
                       previousLines := nextLines\<rparr>)))"

definition incremental_clear :: "incremental \<Rightarrow> incremental" where
  "incremental_clear s =
     s\<lparr>effects := effects s @ [Write [EraseLines (length (previousLines s))]],
       previousOutput := [],
       previousLines := []\<rparr>"

definition incremental_done :: "incremental \<Rightarrow> incremental" where
  "incremental_done s0 =
     (let s1 = (if length (previousOutput s0) > 0
                then s0\<lparr>effects := effects s0 @ [Write [Str [CHR 0x0A]]]\<rparr>
                else s0);
          s2 = s1\<lparr>previousOutput := [], previousLines := []\<rparr>
      in if \<not> showCursor s2
         then s2\<lparr>effects := effects s2 @ [Show], hasHiddenCursor := False\<rparr>
         else s2)"

definition incremental_sync :: "incremental \<Rightarrow> string \<Rightarrow> incremental" where
  "incremental_sync s str =
     (let output = str
      in s\<lparr>previousOutput := output, previousLines := js_split output\<rparr>)"

subsection \<open>create: the renderer handed to the caller\<close>

text \<open>
  \<open>create\<close> returns one of the two closures; a \<open>LogUpdate\<close> value is called (\<open>render\<close>)
  or one of its methods \<open>clear\<close>, \<open>done\<close>, \<open>sync\<close> is.
\<close>

datatype LogUpdate = Standard standard | Incremental incremental

definition create :: "bool \<Rightarrow> bool \<Rightarrow> LogUpdate" where
  "create sc inc =
     (if inc then Incremental (createIncremental sc) else Standard (createStandard sc))"

fun render :: "LogUpdate \<Rightarrow> string \<Rightarrow> LogUpdate" where
  "render (Standard s) str = Standard (standard_render s str)"
| "render (Incremental s) str = Incremental (incremental_render s str)"

fun clear :: "LogUpdate \<Rightarrow> LogUpdate" where
  "clear (Standard s) = Standard (standard_clear s)"
| "clear (Incremental s) = Incremental (incremental_clear s)"

fun done_lu :: "LogUpdate \<Rightarrow> LogUpdate" where
  "done_lu (Standard s) = Standard (standard_done s)"
| "done_lu (Incremental s) = Incremental (incremental_done s)"

fun sync :: "LogUpdate \<Rightarrow> string \<Rightarrow> LogUpdate" where
  "sync (Standard s) str = Standard (standard_sync s str)"
| "sync (Incremental s) str = Incremental (incremental_sync s str)"

text \<open>Reading a renderer: its tracked output, its flags and what it has done.\<close>

fun tracked :: "LogUpdate \<Rightarrow> string" where
  "tracked (Standard s) = previousOutput s"
| "tracked (Incremental s) = previousOutput s"

fun hidden :: "LogUpdate \<Rightarrow> bool" where
  "hidden (Standard s) = hasHiddenCursor s"
| "hidden (Incremental s) = hasHiddenCursor s"

fun keeps_cursor :: "LogUpdate \<Rightarrow> bool" where
  "keeps_cursor (Standard s) = showCursor s"
| "keeps_cursor (Incremental s) = showCursor s"

fun trace :: "LogUpdate \<Rightarrow> effect list" where
  "trace (Standard s) = effects s"
| "trace (Incremental s) = effects s"

text \<open>The writes to the output stream among the effects, and the cursor calls among them.\<close>

fun is_write :: "effect \<Rightarrow> bool" where
  "is_write (Write _) = True"
| "is_write _ = False"

definition stream_writes :: "LogUpdate \<Rightarrow> effect list" where
  "stream_writes lu = filter is_write (trace lu)"

definition hide_count :: "LogUpdate \<Rightarrow> nat" where
  "hide_count lu = length (filter (\<lambda>e. e = Hide) (trace lu))"

text \<open>The cached lines of a renderer: a count (standard) or the lines themselves (incremental).\<close>

fun line_cache :: "LogUpdate \<Rightarrow> nat + string list" where
  "line_cache (Standard s) = Inl (previousLineCount s)"
| "line_cache (Incremental s) = Inr (previousLines s)"

text \<open>A sequence of calls on a renderer, applied left to right.\<close>

datatype call = Render string | Clear | Done | Sync string

fun apply_call :: "LogUpdate \<Rightarrow> call \<Rightarrow> LogUpdate" where
  "apply_call lu (Render str) = render lu str"
| "apply_call lu Clear = clear lu"
| "apply_call lu Done = done_lu lu"
| "apply_call lu (Sync str) = sync lu str"

definition run :: "LogUpdate \<Rightarrow> call list \<Rightarrow> LogUpdate" where
  "run lu cs = foldl apply_call lu cs"

fun is_render :: "call \<Rightarrow> bool" where
  "is_render (Render _) = True"
| "is_render _ = False"

subsection \<open>Properties of the renderer state, in the spec's words\<close>

text \<open>
  The cache agrees with the tracked output: when the tracked output is not empty, the line
  count (standard) is the number of its lines and the line array (incremental) is its split.
\<close>

fun cache_consistent :: "LogUpdate \<Rightarrow> bool" where
  "cache_consistent (Standard s) =
     (previousOutput s = [] \<or> previousLineCount s = length (js_split (previousOutput s)))"
| "cache_consistent (Incremental s) =
     (previousOutput s = [] \<or> previousLines s = js_split (previousOutput s))"

text \<open>The reset state: nothing rendered, line count 0 or no lines.\<close>

fun is_reset :: "LogUpdate \<Rightarrow> bool" where
  "is_reset (Standard s) = (previousOutput s = [] \<and> previousLineCount s = 0)"
| "is_reset (Incremental s) = (previousOutput s = [] \<and> previousLines s = [])"

text \<open>
  A standard renderer and an incremental one that track the same thing: same option, same
  output, same flag, same effects so far, and the standard line count is the length of the
  incremental line array.
\<close>

definition same_tracking :: "standard \<Rightarrow> incremental \<Rightarrow> bool" where
  "same_tracking s t =
     (showCursor s = showCursor t \<and> previousOutput s = previousOutput t \<and>
      hasHiddenCursor s = hasHiddenCursor t \<and> effects s = effects t \<and>
      previousLineCount s = length (previousLines t))"

text \<open>
  The line-by-line update in the spec's words. Moving to the top of the block: when the new
  output has fewer lines, the surplus is erased and the cursor moves up by the new count;
  otherwise the cursor moves up by the previous count minus one.
\<close>

definition cursor_to_top :: "string list \<Rightarrow> string list \<Rightarrow> chunk list" where
  "cursor_to_top prevLines nextLines =
     (if length nextLines < length prevLines
      then [EraseLines (length prevLines - length nextLines), CursorUp (int (length nextLines))]
      else [CursorUp (int (length prevLines) - 1)])"

text \<open>
  Line \<open>i\<close> is unchanged when the previous output has a line \<open>i\<close> with the same content.
  An unchanged line is neither erased nor written: the cursor moves to the next line, unless
  the line is the last. A changed line is erased and written, and a newline follows it, unless
  the line is the last.
\<close>

definition unchanged :: "string list \<Rightarrow> string list \<Rightarrow> nat \<Rightarrow> bool" where
  "unchanged prevLines nextLines i = (i < length prevLines \<and> prevLines ! i = nextLines ! i)"

definition line_update :: "string list \<Rightarrow> string list \<Rightarrow> nat \<Rightarrow> chunk list" where
  "line_update prevLines nextLines i =
     (if unchanged prevLines nextLines i
      then (if Suc i < length nextLines then [CursorNextLine] else [])
      else [EraseLine, Str (nextLines ! i)] @
           (if Suc i < length nextLines then [Str [CHR 0x0A]] else []))"

section \<open>src/components/Box.tsx: scrolling and bounds\<close>

subsection \<open>Numbers\<close>

text \<open>
  A JavaScript number as the scroll operations see it: \<open>NaN\<close>, the two infinities, or a
  finite value. Finite values are reals: the rounding of doubles and the sign of zero are not
  modelled. \<open>Math.min\<close> and \<open>Math.max\<close> return \<open>NaN\<close> as soon as an argument is \<open>NaN\<close>.
\<close>

datatype jsnum = NaN | NegInf | Fin real | PosInf

fun js_le :: "jsnum \<Rightarrow> jsnum \<Rightarrow> bool" where
  "js_le NaN _ = False"
| "js_le _ NaN = False"
| "js_le NegInf _ = True"
| "js_le _ PosInf = True"
| "js_le (Fin a) (Fin b) = (a \<le> b)"
| "js_le (Fin _) NegInf = False"
| "js_le PosInf _ = False"

definition Math_min :: "jsnum \<Rightarrow> jsnum \<Rightarrow> jsnum" where
  "Math_min a b = (if a = NaN \<or> b = NaN then NaN else if js_le a b then a else b)"

definition Math_max :: "jsnum \<Rightarrow> jsnum \<Rightarrow> jsnum" where
  "Math_max a b = (if a = NaN \<or> b = NaN then NaN else if js_le a b then b else a)"

subsection \<open>The DOM around a Box\<close>

text \<open>
  The computed layout of a node, as the layout engine reports it (finite numbers, relative
  to the parent), with the border thickness on each edge.
\<close>

datatype edge = EDGE_LEFT | EDGE_TOP | EDGE_RIGHT | EDGE_BOTTOM

record YogaNode =
  getComputedLeft :: real
  getComputedTop :: real
  getComputedWidth :: real
  getComputedHeight :: real
  getComputedBorder :: "edge \<Rightarrow> real"

text \<open>
  Below the element: its child nodes, each with an optional layout node and its own children.
  Above the element: the chain of \<open>parentNode\<close> pointers, each parent with an optional layout
  node. \<open>'yogaNode' in n && n.yogaNode\<close> is \<open>Some\<close>.
\<close>

datatype DOMNode = DOMNode (node_yogaNode: "YogaNode option") (node_childNodes: "DOMNode list")

datatype Parent = Parent (parent_yogaNode: "YogaNode option") (parent_parentNode: "Parent option")

record DOMElement =
  yogaNode :: "YogaNode option"
  childNodes :: "DOMNode list"
  parentNode :: "Parent option"

subsection \<open>getContentDimensions and getMaxScroll\<close>

text \<open>
  \<open>measureNode\<close> and its \<open>for\<close> loop over \<open>node.childNodes\<close>: the first argument is what
  is left of the child nodes to visit. The closure variables \<open>maxWidth\<close> and \<open>maxHeight\<close>
  are passed in and returned. A child without a layout node is passed over, and the call
  on a child with one runs before the loop goes on.
\<close>

fun measureNode :: "DOMNode list \<Rightarrow> real \<Rightarrow> real \<Rightarrow> real \<times> real \<Rightarrow> real \<times> real" where
  "measureNode [] offsetX offsetY (maxWidth, maxHeight) = (maxWidth, maxHeight)"
| "measureNode (DOMNode None grandchildren # rest) offsetX offsetY (maxWidth, maxHeight) =
     measureNode rest offsetX offsetY (maxWidth, maxHeight)"
| "measureNode (DOMNode (Some childYoga) grandchildren # rest) offsetX offsetY (maxWidth, maxHeight) =
     (let childX = offsetX + getComputedLeft childYoga;
          childY = offsetY + getComputedTop childYoga;
          right = childX + getComputedWidth childYoga;
          bottom = childY + getComputedHeight childYoga;
          m = measureNode grandchildren childX childY (max maxWidth right, max maxHeight bottom)
      in measureNode rest offsetX offsetY m)"

definition getContentDimensions :: "DOMElement \<Rightarrow> real \<times> real" where
  "getContentDimensions element =
     (case yogaNode element of
        None \<Rightarrow> (0, 0)
      | Some _ \<Rightarrow> measureNode (childNodes element) 0 0 (0, 0))"

definition getMaxScroll :: "DOMElement \<Rightarrow> real \<times> real" where
  "getMaxScroll element =
     (case yogaNode element of
        None \<Rightarrow> (0, 0)
      | Some yn \<Rightarrow>
          (let containerWidth =
                 getComputedWidth yn - getComputedBorder yn EDGE_LEFT
                   - getComputedBorder yn EDGE_RIGHT;
               containerHeight =
                 getComputedHeight yn - getComputedBorder yn EDGE_TOP
                   - getComputedBorder yn EDGE_BOTTOM;
               content = getContentDimensions element
           in (max 0 (fst content - containerWidth), max 0 (snd content - containerHeight))))"

text \<open>
  The content extent in the spec's words. Every descendant with geometry has a right and a
  bottom edge, its offset accumulated from the container's origin over the nodes above it;
  a node without geometry adds nothing to the offset and has no edge of its own, and the
  descendants below it are visited all the same.
\<close>

fun all_descendant_edges :: "DOMNode list \<Rightarrow> real \<Rightarrow> real \<Rightarrow> (real \<times> real) list" where
  "all_descendant_edges [] ox oy = []"
| "all_descendant_edges (DOMNode None cs # rest) ox oy =
     all_descendant_edges cs ox oy @ all_descendant_edges rest ox oy"
| "all_descendant_edges (DOMNode (Some yn) cs # rest) ox oy =
     (ox + getComputedLeft yn + getComputedWidth yn, oy + getComputedTop yn + getComputedHeight yn)
       # all_descendant_edges cs (ox + getComputedLeft yn) (oy + getComputedTop yn)
       @ all_descendant_edges rest ox oy"

text \<open>The largest of some edges; with no edge at all the extent is 0.\<close>

definition largest :: "real list \<Rightarrow> real" where
  "largest xs = (if xs = [] then 0 else Max (set xs))"

definition contentExtent :: "DOMElement \<Rightarrow> real \<times> real" where
  "contentExtent element =
     (largest (map fst (all_descendant_edges (childNodes element) 0 0)),
      largest (map snd (all_descendant_edges (childNodes element) 0 0)))"

text \<open>
  What the code reaches instead: only the descendants whose chain of nodes up to the
  container all have a layout node. A child without one is passed over together with
  everything below it. The extent reached starts from 0 and is never below it.
\<close>

fun reached_edges :: "DOMNode list \<Rightarrow> real \<Rightarrow> real \<Rightarrow> (real \<times> real) list" where
  "reached_edges [] ox oy = []"
| "reached_edges (DOMNode None cs # rest) ox oy = reached_edges rest ox oy"
| "reached_edges (DOMNode (Some yn) cs # rest) ox oy =
     (ox + getComputedLeft yn + getComputedWidth yn, oy + getComputedTop yn + getComputedHeight yn)
       # reached_edges cs (ox + getComputedLeft yn) (oy + getComputedTop yn)
       @ reached_edges rest ox oy"

definition reached_extent :: "DOMElement \<Rightarrow> real \<times> real" where
  "reached_extent element =
     (Max (insert 0 (fst ` set (reached_edges (childNodes element) 0 0))),
      Max (insert 0 (snd ` set (reached_edges (childNodes element) 0 0))))"

text \<open>
  A tree without a gap: no node with a layout node lies below a node without one (a text
  node has no layout node and nothing laid out below it).
\<close>

fun has_layout_below :: "DOMNode list \<Rightarrow> bool" where
  "has_layout_below [] = False"
| "has_layout_below (DOMNode None cs # rest) = (has_layout_below cs \<or> has_layout_below rest)"
| "has_layout_below (DOMNode (Some yn) cs # rest) = True"

fun no_gap :: "DOMNode list \<Rightarrow> bool" where
  "no_gap [] = True"
| "no_gap (DOMNode None cs # rest) = (\<not> has_layout_below cs \<and> no_gap rest)"
| "no_gap (DOMNode (Some yn) cs # rest) = (no_gap cs \<and> no_gap rest)"

definition innerWidth :: "YogaNode \<Rightarrow> real" where
  "innerWidth yn =
     getComputedWidth yn - (getComputedBorder yn EDGE_LEFT + getComputedBorder yn EDGE_RIGHT)"

definition innerHeight :: "YogaNode \<Rightarrow> real" where
  "innerHeight yn =
     getComputedHeight yn - (getComputedBorder yn EDGE_TOP + getComputedBorder yn EDGE_BOTTOM)"

text \<open>The maximum scroll in the spec's words.\<close>

definition maxScroll :: "DOMElement \<Rightarrow> YogaNode \<Rightarrow> real \<times> real" where
  "maxScroll element yn =
     (max 0 (fst (contentExtent element) - innerWidth yn),
      max 0 (snd (contentExtent element) - innerHeight yn))"

subsection \<open>The imperative handle: scrollTo and getBounds\<close>

text \<open>
  What the scroll methods change: \<open>scrollStateRef.current\<close>, the element's
  \<open>internal_scrollOffset\<close> and the \<open>scrollVersion\<close> counter. Points are pairs \<open>(x, y)\<close>.
\<close>

record BoxState =
  scrollState :: "jsnum \<times> jsnum"
  internal_scrollOffset :: "(jsnum \<times> jsnum) option"
  scrollVersion :: nat

definition initialBoxState :: BoxState where
  "initialBoxState =
     \<lparr>scrollState = (Fin 0, Fin 0), internal_scrollOffset = None, scrollVersion = 0\<rparr>"

text \<open>The argument \<open>{x?, y?}\<close>: an axis that is absent or \<open>undefined\<close> is \<open>None\<close>.\<close>

definition scrollTo :: "DOMElement \<Rightarrow> jsnum option \<times> jsnum option \<Rightarrow> BoxState \<Rightarrow> BoxState" where
  "scrollTo element arg st =
     (let maxScroll = getMaxScroll element;
          st1 = (case fst arg of
                   None \<Rightarrow> st
                 | Some xv \<Rightarrow>
                     st\<lparr>scrollState :=
                          (Math_max (Fin 0) (Math_min xv (Fin (fst maxScroll))),
                           snd (scrollState st))\<rparr>);
          st2 = (case snd arg of
                   None \<Rightarrow> st1
                 | Some yv \<Rightarrow>
                     st1\<lparr>scrollState :=
                           (fst (scrollState st1),
                            Math_max (Fin 0) (Math_min yv (Fin (snd maxScroll))))\<rparr>)
      in st2\<lparr>internal_scrollOffset := Some (scrollState st2),
             scrollVersion := scrollVersion st2 + 1\<rparr>)"

text \<open>
  Clamping into \<open>[0, m]\<close> in the spec's words: a value below 0 becomes 0, a value above
  \<open>m\<close> becomes \<open>m\<close>, and a value in between is kept. \<open>NaN\<close> is not in any range and
  stays \<open>NaN\<close>.
\<close>

fun clamp :: "real \<Rightarrow> jsnum \<Rightarrow> jsnum" where
  "clamp m NaN = NaN"
| "clamp m NegInf = Fin 0"
| "clamp m PosInf = Fin m"
| "clamp m (Fin v) = Fin (if v < 0 then 0 else if m < v then m else v)"

text \<open>
  The \<open>while\<close> loop of \<open>getBounds\<close>: it walks the parent pointers for as long as the parent
  exists and has a layout node.
\<close>

fun bounds_loop :: "Parent option \<Rightarrow> real \<Rightarrow> real \<Rightarrow> real \<times> real" where
  "bounds_loop None x y = (x, y)"
| "bounds_loop (Some (Parent None up)) x y = (x, y)"
| "bounds_loop (Some (Parent (Some pyn) up)) x y =
     bounds_loop up (x + getComputedLeft pyn) (y + getComputedTop pyn)"

definition getBounds :: "DOMElement \<Rightarrow> real \<times> real \<times> real \<times> real" where
  "getBounds element =
     (case yogaNode element of
        None \<Rightarrow> (0, 0, 0, 0)
      | Some yn \<Rightarrow>
          (let width = getComputedWidth yn;
               height = getComputedHeight yn;
               xy = bounds_loop (parentNode element) (getComputedLeft yn) (getComputedTop yn)
           in (fst xy, snd xy, width, height)))"

text \<open>
  The ancestors of an element, nearest first, and what each contributes to a frame-absolute
  coordinate in the spec's words: its own coordinate, or zero without geometry.
\<close>

fun ancestors :: "Parent option \<Rightarrow> Parent list" where
  "ancestors None = []"
| "ancestors (Some (Parent yn up)) = Parent yn up # ancestors up"

definition has_geometry :: "Parent \<Rightarrow> bool" where
  "has_geometry p = (parent_yogaNode p \<noteq> None)"

definition contribution_x :: "Parent \<Rightarrow> real" where
  "contribution_x p = (case parent_yogaNode p of None \<Rightarrow> 0 | Some yn \<Rightarrow> getComputedLeft yn)"

definition contribution_y :: "Parent \<Rightarrow> real" where
  "contribution_y p = (case parent_yogaNode p of None \<Rightarrow> 0 | Some yn \<Rightarrow> getComputedTop yn)"

text \<open>
  The frame-absolute bounds in the spec's words: the node's own coordinate plus the
  contribution of every ancestor up to the root.
\<close>

definition frame_absolute :: "DOMElement \<Rightarrow> YogaNode \<Rightarrow> real \<times> real \<times> real \<times> real" where
  "frame_absolute element yn =
     (getComputedLeft yn + sum_list (map contribution_x (ancestors (parentNode element))),
      getComputedTop yn + sum_list (map contribution_y (ancestors (parentNode element))),
      getComputedWidth yn, getComputedHeight yn)"

text \<open>
  What the loop adds: the contributions of the ancestors from the parent up to, and not
  including, the first ancestor without geometry.
\<close>

definition laid_out_ancestors :: "DOMElement \<Rightarrow> Parent list" where
  "laid_out_ancestors element = takeWhile has_geometry (ancestors (parentNode element))"

subsection \<open>The style of the rendered box\<close>

datatype overflow = Visible | Hidden | Scroll

text \<open>
  A property of the style object that the spread \<open>{...style}\<close> copies: it is absent, or
  present with the value \<open>undefined\<close>, or present with a value. A property that is present
  replaces the default written before the spread, also when its value is \<open>undefined\<close>.
\<close>

datatype 'a property = Absent | Undefined | Given 'a

definition spread :: "'a property \<Rightarrow> 'a property \<Rightarrow> 'a property" where
  "spread dflt p = (case p of Absent \<Rightarrow> dflt | Undefined \<Rightarrow> Undefined | Given v \<Rightarrow> Given v)"

text \<open>
  The style properties the component reads or sets. Of \<open>backgroundColor\<close> and the overflow
  properties only the value read matters: \<open>None\<close> is a property that is absent or
  \<open>undefined\<close>.
\<close>

record Styles =
  flexWrap :: "string property"
  flexDirection :: "string property"
  flexGrow :: "real property"
  flexShrink :: "real property"
  backgroundColor :: "string option"
  overflow :: "overflow option"
  overflowX :: "overflow option"
  overflowY :: "overflow option"

text \<open>JavaScript's \<open>a ?? b\<close>: \<open>a\<close> unless it is \<open>undefined\<close> or \<open>null\<close>.\<close>

definition nullish :: "'a option \<Rightarrow> 'a option \<Rightarrow> 'a option" where
  "nullish a b = (case a of Some v \<Rightarrow> Some v | None \<Rightarrow> b)"

text \<open>
  The \<open>style\<close> object handed to \<open>ink-box\<close>: the defaults, overridden by the given style,
  then \<open>backgroundColor\<close>, \<open>overflowX\<close> and \<open>overflowY\<close>.
\<close>

definition box_style :: "Styles \<Rightarrow> string option \<Rightarrow> Styles" where
  "box_style style bg =
     \<lparr>flexWrap = spread (Given ''nowrap'') (flexWrap style),
      flexDirection = spread (Given ''row'') (flexDirection style),
      flexGrow = spread (Given 0) (flexGrow style),
      flexShrink = spread (Given 1) (flexShrink style),
      backgroundColor = bg,
      overflow = overflow style,
      overflowX = nullish (nullish (overflowX style) (overflow style)) (Some Visible),
      overflowY = nullish (nullish (overflowY style) (overflow style)) (Some Visible)\<rparr>"

definition isScrollContainer :: "Styles \<Rightarrow> bool" where
  "isScrollContainer style =
     (overflow style = Some Scroll \<or> overflowX style = Some Scroll \<or> overflowY style = Some Scroll)"

subsection \<open>Example trees\<close>

text \<open>A layout node with the given left, top, width, height, and the same border on every edge.\<close>

definition layout :: "real \<Rightarrow> real \<Rightarrow> real \<Rightarrow> real \<Rightarrow> real \<Rightarrow> YogaNode" where
  "layout l t w h b =
     \<lparr>getComputedLeft = l, getComputedTop = t, getComputedWidth = w, getComputedHeight = h,
      getComputedBorder = (\<lambda>_. b)\<rparr>"

text \<open>
  A bordered 10 by 5 container with a 20 by 3 child at (1, 1), which holds a 30 by 1 child at
  (2, 2), and a text node.
\<close>

definition example_container :: DOMElement where
  "example_container =
     \<lparr>yogaNode = Some (layout 0 0 10 5 1),
      childNodes = [DOMNode (Some (layout 1 1 20 3 0)) [DOMNode (Some (layout 2 2 30 1 0)) []],
                    DOMNode None []],
      parentNode = None\<rparr>"

text \<open>A 2 by 2 box at (1, 1) in a parent at (3, 4) in a root at (5, 7).\<close>

definition example_inner :: DOMElement where
  "example_inner =
     \<lparr>yogaNode = Some (layout 1 1 2 2 0),
      childNodes = [],
      parentNode = Some (Parent (Some (layout 3 4 10 10 0))
                     (Some (Parent (Some (layout 5 7 20 20 0)) None)))\<rparr>"

text \<open>The same box under a parent without geometry, in a root at (5, 7).\<close>

definition example_detached :: DOMElement where
  "example_detached =
     \<lparr>yogaNode = Some (layout 1 1 2 2 0),
      childNodes = [],
      parentNode = Some (Parent None (Some (Parent (Some (layout 5 7 20 20 0)) None)))\<rparr>"

text \<open>
  A 10 by 5 container with a 12 by 6 child, and a child without a layout node that holds a
  100 by 100 node.
\<close>

definition example_gap :: DOMElement where
  "example_gap =
     \<lparr>yogaNode = Some (layout 0 0 10 5 0),
      childNodes = [DOMNode (Some (layout 0 0 12 6 0)) [],
                    DOMNode None [DOMNode (Some (layout 0 0 100 100 0)) []]],
      parentNode = None\<rparr>"

section \<open>Verification of the renderer\<close>

lemmas standard_defs =
  standard_render_def standard_clear_def standard_done_def standard_sync_def

lemmas incremental_defs =
  incremental_render_def incremental_clear_def incremental_done_def incremental_sync_def

lemmas create_defs = create_def createStandard_def createIncremental_def

subsection \<open>Splitting into lines\<close>

lemma js_split_nonempty: "js_split s \<noteq> []"
  by (induction s) (auto split: list.splits)

lemma length_js_split: "length (js_split s) = Suc (count_list s (CHR 0x0A))"
  by (induction s) (auto split: list.splits simp: js_split_nonempty)

lemma js_split_no_newline: "l \<in> set (js_split s) \<Longrightarrow> CHR 0x0A \<notin> set l"
proof (induction s arbitrary: l)
  case Nil
  then show ?case by simp
next
  case (Cons c cs)
  show ?case
  proof (cases "c = CHR 0x0A")
    case True
    with Cons show ?thesis by auto
  next
    case False
    obtain h t where ht: "js_split cs = h # t"
      using js_split_nonempty[of cs] by (cases "js_split cs") auto
    with False Cons.prems have "l = c # h \<or> l \<in> set t" by auto
    with ht False Cons.IH show ?thesis by auto
  qed
qed

subsection \<open>Rendering the same text again\<close>

lemma render_tracked: "tracked (render lu str) = str"
  by (cases lu) (auto simp: standard_defs incremental_defs Let_def)

text \<open>
  Claim C1. Rendering the string a renderer already tracks (after a render or a sync of it)
  writes nothing to the stream and leaves the tracked output and the cached lines as they
  were. Rendering a text that is not the tracked one adds exactly one write to the stream,
  and rendering it a second time adds none: the second call changes nothing at all. This
  holds in both modes. (Hiding the cursor is a call to \<open>cliCursor\<close>, not a write to the
  stream.)
\<close>

theorem render_same_is_noop:
  "stream_writes (render lu (tracked lu)) = stream_writes lu
   \<and> tracked (render lu (tracked lu)) = tracked lu
   \<and> line_cache (render lu (tracked lu)) = line_cache lu
   \<and> stream_writes (render (sync lu str) str) = stream_writes lu
   \<and> render (render lu str) str = render lu str
   \<and> (str \<noteq> tracked lu \<longrightarrow>
        (\<exists>w. stream_writes (render lu str) = stream_writes lu @ [Write w]
           \<and> stream_writes (render (render lu str) str) = stream_writes lu @ [Write w]))"
proof (cases lu)
  case (Standard s)
  have "standard_render (standard_render s str) str = standard_render s str"
    by (simp add: standard_render_def Let_def)
  moreover have "filter is_write (effects (standard_render s (previousOutput s)))
      = filter is_write (effects s)"
    and "previousOutput (standard_render s (previousOutput s)) = previousOutput s"
    and "previousLineCount (standard_render s (previousOutput s)) = previousLineCount s"
    and "filter is_write (effects (standard_render (standard_sync s str) str))
      = filter is_write (effects s)"
    by (simp_all add: standard_render_def standard_sync_def Let_def)
  moreover have "\<exists>w. filter is_write (effects (standard_render s str))
      = filter is_write (effects s) @ [Write w]" if "str \<noteq> previousOutput s"
    using that by (simp add: standard_render_def Let_def)
  ultimately show ?thesis
    using Standard by (simp add: stream_writes_def)
next
  case (Incremental t)
  have "incremental_render (incremental_render t str) str = incremental_render t str"
    by (simp add: incremental_render_def Let_def)
  moreover have "filter is_write (effects (incremental_render t (previousOutput t)))
      = filter is_write (effects t)"
    and "previousOutput (incremental_render t (previousOutput t)) = previousOutput t"
    and "previousLines (incremental_render t (previousOutput t)) = previousLines t"
    and "filter is_write (effects (incremental_render (incremental_sync t str) str))
      = filter is_write (effects t)"
    by (simp_all add: incremental_render_def incremental_sync_def Let_def)
  moreover have "\<exists>w. filter is_write (effects (incremental_render t str))
      = filter is_write (effects t) @ [Write w]" if "str \<noteq> previousOutput t"
    using that by (simp add: incremental_render_def Let_def)
  ultimately show ?thesis
    using Incremental by (simp add: stream_writes_def)
qed

theorem render_same_is_noop_witness:
  "''a'' \<noteq> tracked (create False True)
   \<and> stream_writes (render (create False True) ''a'') = [Write [EraseLines 0, Str ''a'']]
   \<and> stream_writes (render (render (create False True) ''a'') ''a'')
       = [Write [EraseLines 0, Str ''a'']]"
proof -
  have ne: "''a'' \<noteq> tracked (create False True)"
    by (simp add: create_defs)
  have none: "stream_writes (create False True) = []"
    by (simp add: create_defs stream_writes_def)
  have one: "stream_writes (render (create False True) ''a'') = [Write [EraseLines 0, Str ''a'']]"
    by (simp add: create_defs stream_writes_def incremental_render_def Let_def)
  from render_same_is_noop[of "create False True" "''a''", THEN conjunct2, THEN conjunct2,
      THEN conjunct2, THEN conjunct2, THEN conjunct2, rule_format, OF ne]
  obtain w where "stream_writes (render (create False True) ''a'') = stream_writes (create False True) @ [Write w]"
    and "stream_writes (render (render (create False True) ''a'') ''a'')
          = stream_writes (create False True) @ [Write w]"
    by blast
  with ne one show ?thesis by simp
qed

subsection \<open>The fallback of the incremental renderer\<close>

text \<open>
  Claim C4. In incremental mode, a render of an output that differs from the tracked one,
  where the tracked output is empty or the new output is the empty string, is the
  standard-mode transition: the one write is the erase of the previous line count followed
  by the whole output, with no piece per line, which is what the standard render writes from
  a state that tracks the same thing; and the two keep tracking the same thing.
\<close>

theorem incremental_fallback:
  assumes "same_tracking s t"
    and "previousOutput t = [] \<or> str = []"
    and "str \<noteq> previousOutput t"
  shows "effects (incremental_render t str) =
          effects t @ (if \<not> showCursor t \<and> \<not> hasHiddenCursor t then [Hide] else [])
                    @ [Write [EraseLines (length (previousLines t)), Str str]]
     \<and> effects (incremental_render t str) = effects (standard_render s str)
     \<and> same_tracking (standard_render s str) (incremental_render t str)"
  using assms
  by (auto simp: same_tracking_def standard_defs incremental_defs Let_def)

theorem incremental_fallback_witness:
  "same_tracking (createStandard False) (createIncremental False)
   \<and> ''hi'' \<noteq> previousOutput (createIncremental False)
   \<and> effects (incremental_render (createIncremental False) ''hi'')
       = [Hide, Write [EraseLines 0, Str ''hi'']]
   \<and> effects (standard_render (createStandard False) ''hi'')
       = [Hide, Write [EraseLines 0, Str ''hi'']]"
proof -
  have st: "same_tracking (createStandard False) (createIncremental False)"
    by (simp add: same_tracking_def createStandard_def createIncremental_def)
  have em: "previousOutput (createIncremental False) = [] \<or> ''hi'' = []"
    by (simp add: createIncremental_def)
  have ne: "''hi'' \<noteq> previousOutput (createIncremental False)"
    by (simp add: createIncremental_def)
  have c: "\<not> showCursor (createIncremental False) \<and> \<not> hasHiddenCursor (createIncremental False)
           \<and> effects (createIncremental False) = [] \<and> previousLines (createIncremental False) = []"
    by (simp add: createIncremental_def)
  note fb = incremental_fallback[OF st em ne]
  from fb c have i: "effects (incremental_render (createIncremental False) ''hi'')
       = [Hide, Write [EraseLines 0, Str ''hi'']]"
    by simp
  from fb have "effects (incremental_render (createIncremental False) ''hi'')
       = effects (standard_render (createStandard False) ''hi'')"
    by blast
  with i have "effects (standard_render (createStandard False) ''hi'')
       = [Hide, Write [EraseLines 0, Str ''hi'']]"
    by simp
  with st ne i show ?thesis by blast
qed

subsection \<open>The line-by-line update of the incremental renderer\<close>

text \<open>The loop appends, for each index from \<open>i\<close> on, the update of that line.\<close>

lemma render_loop_line_updates:
  "n = length nextLines \<Longrightarrow>
   render_loop i n nextLines prevLines buf =
     buf @ concat (map (line_update prevLines nextLines) [i..<n])"
proof (induction i n nextLines prevLines buf rule: render_loop.induct)
  case (1 i visibleCount nextLines prevLines buffer)
  show ?case
  proof (cases "i < visibleCount")
    case False
    then show ?thesis by (simp add: render_loop.simps)
  next
    case True
    have ch: "(Some (nextLines ! i) \<noteq> js_index prevLines i) = (\<not> unchanged prevLines nextLines i)"
      by (auto simp: js_index_def unchanged_def)
    have nx: "js_index nextLines i = Some (nextLines ! i)"
      using True 1(2) by (simp add: js_index_def)
    have lt: "(int i < int visibleCount - 1) = (Suc i < length nextLines)"
      using 1(2) by auto
    have up: "[i..<visibleCount] = i # [Suc i..<visibleCount]"
      using True by (simp add: upt_conv_Cons)
    show ?thesis
      apply (subst render_loop.simps)
      apply (simp only: True if_True Let_def)
      apply (subst 1(1)[OF True refl refl refl 1(2)])
      apply (simp only: up nx ch lt)
      apply (simp add: line_update_def 1(2))
      done
  qed
qed

text \<open>
  Claim C3. In incremental mode, when the tracked output and the new output are both not
  empty and differ, the one write is the move to the top of the block followed, line by line,
  by the update of each line of the new output: nothing but a move to the next line for a
  line whose content is that of the previous line at the same index, and an erase of the line
  followed by its new content, then a newline, for a changed line (the last line is followed
  by neither). So a newline is only ever written right after a rewritten line.
\<close>

theorem incremental_line_diff:
  assumes "previousOutput t \<noteq> []" and "str \<noteq> []" and "str \<noteq> previousOutput t"
  shows "effects (incremental_render t str) =
     effects t @ (if \<not> showCursor t \<and> \<not> hasHiddenCursor t then [Hide] else [])
       @ [Write (cursor_to_top (previousLines t) (js_split str)
                 @ concat (map (line_update (previousLines t) (js_split str))
                               [0..<length (js_split str)]))]"
  using assms
  by (auto simp: incremental_render_def Let_def render_loop_line_updates cursor_to_top_def)

theorem incremental_line_diff_witness:
  "effects (incremental_render
      (incremental_sync (createIncremental False) [CHR ''a'', CHR 0x0A, CHR ''b''])
      [CHR ''a'', CHR 0x0A, CHR ''c'', CHR 0x0A, CHR ''d''])
   = [Hide, Write [CursorUp 1, CursorNextLine, EraseLine, Str ''c'', Str [CHR 0x0A],
                   EraseLine, Str ''d'']]"
proof -
  let ?t = "incremental_sync (createIncremental False) [CHR ''a'', CHR 0x0A, CHR ''b'']"
  let ?s = "[CHR ''a'', CHR 0x0A, CHR ''c'', CHR 0x0A, CHR ''d'']"
  have t: "?t = \<lparr>showCursor = False, previousOutput = [CHR ''a'', CHR 0x0A, CHR ''b''],
       hasHiddenCursor = False, effects = [], previousLines = [''a'', ''b'']\<rparr>"
    by (simp add: incremental_sync_def createIncremental_def Let_def)
  have h1: "previousOutput ?t \<noteq> []" by (simp add: t)
  have h2: "?s \<noteq> []" by simp
  have h3: "?s \<noteq> previousOutput ?t" by (simp add: t)
  have sp: "js_split ?s = [''a'', ''c'', ''d'']" by simp
  have up: "[0..<3] = [0, 1, 2]" by (simp add: upt_rec)
  from incremental_line_diff[OF h1 h2 h3] show ?thesis
    unfolding t sp by (simp add: up cursor_to_top_def line_update_def unchanged_def)
qed

subsection \<open>done\<close>

lemma keeps_cursor_apply: "keeps_cursor (apply_call lu c) = keeps_cursor lu"
  by (cases lu; cases c) (auto simp: standard_defs incremental_defs Let_def)

lemma hidden_only_without_showCursor_step:
  "\<not> (hidden lu \<and> keeps_cursor lu) \<Longrightarrow> \<not> (hidden (apply_call lu c) \<and> keeps_cursor (apply_call lu c))"
  by (cases lu; cases c) (auto simp: standard_defs incremental_defs Let_def)

lemma hidden_only_without_showCursor:
  "\<not> (hidden lu \<and> keeps_cursor lu) \<Longrightarrow> \<not> (hidden (run lu cs) \<and> keeps_cursor (run lu cs))"
  unfolding run_def
proof (induction cs arbitrary: lu)
  case Nil
  then show ?case by simp
next
  case (Cons c cs)
  from hidden_only_without_showCursor_step[OF Cons.prems, of c] Cons.IH[of "apply_call lu c"]
  show ?case by simp
qed

text \<open>
  Claim C5, as the code has it. In both modes \<open>done\<close> writes one newline to the stream exactly
  when the tracked output is not empty, and leaves the renderer in the reset state. It calls
  \<open>cliCursor.show()\<close> exactly when the renderer was created with \<open>showCursor\<close> false, whether or
  not the cursor had been hidden; the hidden flag is then false. A renderer only ever hides
  the cursor when \<open>showCursor\<close> is false, so a cursor it had hidden is always restored.
\<close>

theorem done_effects:
  "trace (done_lu lu) =
     trace lu @ (if tracked lu = [] then [] else [Write [Str [CHR 0x0A]]])
              @ (if keeps_cursor lu then [] else [Show])
   \<and> is_reset (done_lu lu)
   \<and> hidden (done_lu lu) = (keeps_cursor lu \<and> hidden lu)
   \<and> (hidden (run (create sc inc) cs) \<and> keeps_cursor (run (create sc inc) cs)) = False"
proof -
  have "\<not> (hidden (create sc inc) \<and> keeps_cursor (create sc inc))"
    by (simp add: create_defs)
  from hidden_only_without_showCursor[OF this]
  have reach: "(hidden (run (create sc inc) cs) \<and> keeps_cursor (run (create sc inc) cs)) = False"
    by simp
  have "trace (done_lu lu) =
     trace lu @ (if tracked lu = [] then [] else [Write [Str [CHR 0x0A]]])
              @ (if keeps_cursor lu then [] else [Show])"
    by (cases lu) (simp_all add: standard_done_def incremental_done_def Let_def)
  moreover have "is_reset (done_lu lu)"
    by (cases lu) (simp_all add: standard_done_def incremental_done_def Let_def)
  moreover have "hidden (done_lu lu) = (keeps_cursor lu \<and> hidden lu)"
    by (cases lu) (auto simp: standard_done_def incremental_done_def Let_def)
  ultimately show ?thesis using reach by blast
qed

text \<open>
  The claim as written fails for a renderer that never hid the cursor: created with
  \<open>showCursor\<close> false and finished before any render, it still shows the cursor.
\<close>

theorem done_shows_unhidden_cursor:
  "\<not> hidden (create False False)
   \<and> trace (create False False) = []
   \<and> trace (done_lu (create False False)) = [Show]"
  by (simp add: create_defs standard_done_def)

subsection \<open>The cached lines agree with the tracked output\<close>

text \<open>
  Claim C8. A new renderer is in the reset state (empty output, line count 0 or no lines),
  and so is a renderer after \<open>clear\<close> or \<open>done\<close>. Whenever the tracked output is not empty,
  the cached line count is the number of its lines (standard) and the cached lines are its
  split (incremental); render, clear, done and sync all preserve this.
\<close>

theorem cache_consistent_preserved:
  assumes "cache_consistent lu"
  shows "cache_consistent (render lu str) \<and> cache_consistent (clear lu)
       \<and> cache_consistent (done_lu lu) \<and> cache_consistent (sync lu str)
       \<and> is_reset (clear lu) \<and> is_reset (done_lu lu)
       \<and> is_reset (create sc inc) \<and> cache_consistent (create sc inc)"
  using assms
  by (cases lu) (auto simp: standard_defs incremental_defs Let_def create_defs)

theorem cache_consistent_preserved_witness:
  "cache_consistent (sync (create False True) ''ab'')
   \<and> cache_consistent (render (sync (create False True) ''ab'') ''c'')"
proof -
  have h: "cache_consistent (sync (create False True) ''ab'')"
    by (simp add: create_defs incremental_sync_def Let_def)
  from cache_consistent_preserved[OF h, of "''c''" False False] h show ?thesis by blast
qed

lemma cache_consistent_step: "cache_consistent lu \<Longrightarrow> cache_consistent (apply_call lu c)"
  by (cases lu; cases c) (auto simp: standard_defs incremental_defs Let_def)

lemma cache_consistent_reachable: "cache_consistent (run (create sc inc) cs)"
proof -
  have "cache_consistent (foldl apply_call lu cs)" if "cache_consistent lu" for lu
    using that by (induction cs arbitrary: lu) (auto simp: cache_consistent_step)
  moreover have "cache_consistent (create sc inc)"
    by (simp add: create_defs)
  ultimately show ?thesis by (simp add: run_def)
qed

subsection \<open>Hiding the cursor once\<close>

lemma hidden_apply:
  "hidden lu \<Longrightarrow> c \<noteq> Done \<Longrightarrow>
   hidden (apply_call lu c) \<and> hide_count (apply_call lu c) = hide_count lu"
  by (cases lu; cases c) (auto simp: standard_defs incremental_defs Let_def hide_count_def)

lemma hidden_run:
  "hidden lu \<Longrightarrow> Done \<notin> set cs \<Longrightarrow>
   hidden (run lu cs) \<and> hide_count (run lu cs) = hide_count lu"
  unfolding run_def
proof (induction cs arbitrary: lu)
  case Nil
  then show ?case by simp
next
  case (Cons c cs)
  from Cons.prems have "hidden (apply_call lu c)" "hide_count (apply_call lu c) = hide_count lu"
    using hidden_apply[of lu c] by auto
  with Cons.IH[of "apply_call lu c"] Cons.prems show ?case by simp
qed

lemma unhidden_apply:
  "\<not> hidden lu \<Longrightarrow> \<not> is_render c \<Longrightarrow> \<not> hidden (apply_call lu c)"
  by (cases lu; cases c) (auto simp: standard_defs incremental_defs Let_def)

lemma unhidden_run:
  "\<not> hidden lu \<Longrightarrow> \<forall>c\<in>set cs. \<not> is_render c \<Longrightarrow> \<not> hidden (run lu cs)"
  unfolding run_def
  by (induction cs arbitrary: lu) (auto simp: unhidden_apply)

lemma keeps_cursor_run: "keeps_cursor (run lu cs) = keeps_cursor lu"
  unfolding run_def
  by (induction cs arbitrary: lu) (auto simp: keeps_cursor_apply)

lemma first_render:
  "\<not> keeps_cursor lu \<Longrightarrow> \<not> hidden lu \<Longrightarrow>
   hidden (render lu str) \<and> hide_count (render lu str) = Suc (hide_count lu)
   \<and> trace (render lu (tracked lu)) = trace lu @ [Hide]"
  by (cases lu) (auto simp: standard_defs incremental_defs Let_def hide_count_def)

lemma fresh_create: "\<not> keeps_cursor (create False inc) \<and> \<not> hidden (create False inc)"
  by (simp add: create_defs)

lemma fresh_done:
  "\<not> keeps_cursor lu \<Longrightarrow> \<not> keeps_cursor (done_lu lu) \<and> \<not> hidden (done_lu lu)"
  by (cases lu) (simp_all add: standard_done_def incremental_done_def Let_def)

text \<open>
  Claim C9. Take a renderer with \<open>showCursor\<close> false that has just been created, or on which
  \<open>done\<close> has just been called, possibly followed by calls other than render. Its next render
  hides the cursor, also when the argument is the tracked output (then the hide is the only
  effect). After that render no call hides the cursor again, as long as \<open>done\<close> is not called.
\<close>

theorem cursor_hidden_once:
  assumes "start = create False inc \<or> (start = done_lu lu \<and> \<not> keeps_cursor lu)"
    and "\<forall>c\<in>set pre. \<not> is_render c"
    and "lu0 = run start pre"
  shows "trace (render lu0 (tracked lu0)) = trace lu0 @ [Hide]
       \<and> hide_count (render lu0 str) = Suc (hide_count lu0)
       \<and> (Done \<in> set cs \<or> hide_count (run (render lu0 str) cs) = hide_count (render lu0 str))"
proof -
  have "\<not> keeps_cursor start \<and> \<not> hidden start"
    using assms(1) fresh_create[of inc] fresh_done[of lu] by blast
  then have a: "\<not> keeps_cursor lu0" "\<not> hidden lu0"
    using assms(2,3) unhidden_run[of start pre] keeps_cursor_run[of start pre] by auto
  from first_render[OF a, of str]
  have "hidden (render lu0 str)" "hide_count (render lu0 str) = Suc (hide_count lu0)"
    "trace (render lu0 (tracked lu0)) = trace lu0 @ [Hide]"
    by auto
  then show ?thesis using hidden_run[of "render lu0 str" cs] by auto
qed

theorem cursor_hidden_once_witness:
  "trace (render (run (done_lu (create False True)) [Sync ''a'']) ''a'') = [Show, Hide]
   \<and> hide_count (run (render (run (done_lu (create False True)) [Sync ''a'']) ''b'')
                     [Render ''c'', Clear, Render ''c'']) = 1"
proof -
  have k: "\<not> keeps_cursor (create False True)"
    by (simp add: create_defs)
  have p: "\<forall>c\<in>set [Sync ''a'']. \<not> is_render c"
    by simp
  have t: "tracked (run (done_lu (create False True)) [Sync ''a'']) = ''a''"
    by (simp add: run_def create_defs incremental_done_def incremental_sync_def Let_def)
  have e: "trace (run (done_lu (create False True)) [Sync ''a'']) = [Show]"
    by (simp add: run_def create_defs incremental_done_def incremental_sync_def Let_def)
  have n: "Done \<notin> set [Render ''c'', Clear, Render ''c'']"
    by simp
  have s: "done_lu (create False True) = create False True
           \<or> (done_lu (create False True) = done_lu (create False True)
              \<and> \<not> keeps_cursor (create False True))"
    using k by simp
  from cursor_hidden_once[OF s p refl, of "''b''" "[Render ''c'', Clear, Render ''c'']"] n t e
  show ?thesis by (simp add: hide_count_def)
qed

section \<open>Verification of the Box handle\<close>

subsection \<open>The content extent and the maximum scroll\<close>

lemma Max_insert_Max:
  fixes x :: real
  assumes "finite A" and "finite B"
  shows "Max (insert (Max (insert x A)) B) = Max (insert x (A \<union> B))"
proof (cases "B = {}")
  case True
  then show ?thesis by simp
next
  case False
  have "Max (insert x (A \<union> B)) = Max (insert x A \<union> B)" by simp
  also have "\<dots> = max (Max (insert x A)) (Max B)"
    using assms False by (intro Max_Un) auto
  also have "\<dots> = Max (insert (Max (insert x A)) B)"
    using assms False by simp
  finally show ?thesis by simp
qed

lemma Max_insert_max:
  fixes a :: real
  assumes "finite A"
  shows "Max (insert (max a b) A) = Max (insert a (insert b A))"
proof (cases "A = {}")
  case True
  then show ?thesis by (simp add: max.commute)
next
  case False
  then show ?thesis using assms by (simp add: max.assoc max.left_commute max.commute)
qed

text \<open>
  The two running maxima of \<open>measureNode\<close> are the largest right and bottom edges among the
  starting values and the edges of the descendants visited.
\<close>

lemma measureNode_edges:
  "measureNode cs ox oy acc =
     (Max (insert (fst acc) (fst ` set (reached_edges cs ox oy))),
      Max (insert (snd acc) (snd ` set (reached_edges cs ox oy))))"
proof (induction cs ox oy acc rule: measureNode.induct)
  case (1 offsetX offsetY maxWidth maxHeight)
  then show ?case by simp
next
  case (2 grandchildren rest offsetX offsetY maxWidth maxHeight)
  then show ?case by simp
next
  case (3 childYoga grandchildren rest offsetX offsetY maxWidth maxHeight)
  let ?cx = "offsetX + getComputedLeft childYoga"
  let ?cy = "offsetY + getComputedTop childYoga"
  let ?r = "?cx + getComputedWidth childYoga"
  let ?b = "?cy + getComputedHeight childYoga"
  let ?G = "reached_edges grandchildren ?cx ?cy"
  let ?R = "reached_edges rest offsetX offsetY"
  let ?m = "measureNode grandchildren ?cx ?cy (max maxWidth ?r, max maxHeight ?b)"
  have g: "?m = (Max (insert (max maxWidth ?r) (fst ` set ?G)),
                 Max (insert (max maxHeight ?b) (snd ` set ?G)))"
    using "3.IH"(1)[OF refl refl refl refl] by simp
  have r: "measureNode rest offsetX offsetY ?m =
      (Max (insert (fst ?m) (fst ` set ?R)), Max (insert (snd ?m) (snd ` set ?R)))"
    using "3.IH"(2)[OF refl refl refl refl refl] by simp
  have w: "Max (insert (fst ?m) (fst ` set ?R))
         = Max (insert maxWidth (insert ?r (fst ` set ?G \<union> fst ` set ?R)))"
    unfolding g fst_conv
    by (simp add: Max_insert_max Max_insert_Max insert_commute)
  have h: "Max (insert (snd ?m) (snd ` set ?R))
         = Max (insert maxHeight (insert ?b (snd ` set ?G \<union> snd ` set ?R)))"
    unfolding g snd_conv
    by (simp add: Max_insert_max Max_insert_Max insert_commute)
  show ?case
    using r w h by (simp add: Let_def image_Un)
qed

lemma getContentDimensions_extent:
  "yogaNode element = Some yn \<Longrightarrow> getContentDimensions element = reached_extent element"
  by (simp add: getContentDimensions_def reached_extent_def measureNode_edges)

lemma nothing_below: "\<not> has_layout_below cs \<Longrightarrow> all_descendant_edges cs ox oy = []"
  by (induction cs ox oy rule: all_descendant_edges.induct) auto

lemma no_gap_reaches_all: "no_gap cs \<Longrightarrow> reached_edges cs ox oy = all_descendant_edges cs ox oy"
  by (induction cs ox oy rule: reached_edges.induct) (auto simp: nothing_below)

lemma Max_floor_largest: "Max (insert 0 (f ` set xs)) = max 0 (largest (map f xs))"
  by (cases "xs = []") (simp_all add: largest_def)

lemma maxScroll_nonneg: "0 \<le> fst (getMaxScroll element) \<and> 0 \<le> snd (getMaxScroll element)"
  by (simp add: getMaxScroll_def Let_def split: option.splits)

lemma max_floor_irrelevant:
  fixes m w :: real
  assumes "0 \<le> w"
  shows "max 0 (max 0 m - w) = max 0 (m - w)"
  using assms by (simp add: max_def)

text \<open>
  Claim C6, as the code has it. For a container with computed geometry, the maximum scroll
  on each axis is the extent reached minus the inner size, or 0 when that is negative. The
  inner size is the computed size minus the border on both edges of the axis. The extent
  reached is the largest right (bottom) edge, and at least 0, over the descendants that
  \<open>measureNode\<close> reaches, offsets accumulated from the container's origin: a child without
  geometry is passed over with everything below it. In a tree without a gap, with an inner
  size that is not negative, this is the maximum scroll of the spec, over all descendants.
\<close>

theorem maxScroll_formula:
  assumes "yogaNode element = Some yn"
  shows "getMaxScroll element =
     (max 0 (fst (reached_extent element) - innerWidth yn),
      max 0 (snd (reached_extent element) - innerHeight yn))
   \<and> (no_gap (childNodes element) \<and> 0 \<le> innerWidth yn \<and> 0 \<le> innerHeight yn
      \<longrightarrow> getMaxScroll element = maxScroll element yn)"
proof -
  have main: "getMaxScroll element =
     (max 0 (fst (reached_extent element) - innerWidth yn),
      max 0 (snd (reached_extent element) - innerHeight yn))"
    using assms getContentDimensions_extent[OF assms]
    by (simp add: getMaxScroll_def Let_def innerWidth_def innerHeight_def algebra_simps)
  have "getMaxScroll element = maxScroll element yn"
    if ng: "no_gap (childNodes element)" and w: "0 \<le> innerWidth yn" and h: "0 \<le> innerHeight yn"
  proof -
    have "reached_extent element =
        (max 0 (fst (contentExtent element)), max 0 (snd (contentExtent element)))"
      unfolding reached_extent_def contentExtent_def no_gap_reaches_all[OF ng]
      by (simp add: Max_floor_largest)
    then show ?thesis
      unfolding main maxScroll_def
      using max_floor_irrelevant[OF w] max_floor_irrelevant[OF h] by simp
  qed
  with main show ?thesis by blast
qed

theorem maxScroll_formula_witness:
  "yogaNode example_container = Some (layout 0 0 10 5 1)
   \<and> no_gap (childNodes example_container)
   \<and> innerWidth (layout 0 0 10 5 1) = 8 \<and> innerHeight (layout 0 0 10 5 1) = 3
   \<and> contentExtent example_container = (33, 4)
   \<and> getMaxScroll example_container = (25, 1)"
proof -
  have y: "yogaNode example_container = Some (layout 0 0 10 5 1)"
    by (simp add: example_container_def)
  have g: "no_gap (childNodes example_container)"
    by (simp add: example_container_def)
  have i: "innerWidth (layout 0 0 10 5 1) = 8 \<and> innerHeight (layout 0 0 10 5 1) = 3"
    by (simp add: innerWidth_def innerHeight_def layout_def)
  have c: "contentExtent example_container = (33, 4)"
    by (simp add: contentExtent_def largest_def example_container_def layout_def)
  have hyp: "no_gap (childNodes example_container)
            \<and> 0 \<le> innerWidth (layout 0 0 10 5 1) \<and> 0 \<le> innerHeight (layout 0 0 10 5 1)"
    using g i by simp
  from maxScroll_formula[OF y, THEN conjunct2, rule_format, OF hyp]
  have "getMaxScroll example_container = maxScroll example_container (layout 0 0 10 5 1)" .
  then have "getMaxScroll example_container = (25, 1)"
    using c i by (simp add: maxScroll_def)
  with y g i c show ?thesis by simp
qed

text \<open>
  The claim as written fails on a tree with a gap: the node below the child without
  geometry is a descendant with a right edge of 100 and a bottom edge of 100, and the code
  never reaches it.
\<close>

theorem maxScroll_misses_below_gap:
  "yogaNode example_gap = Some (layout 0 0 10 5 0)
   \<and> getMaxScroll example_gap \<noteq> maxScroll example_gap (layout 0 0 10 5 0)
   \<and> getMaxScroll example_gap = (2, 1)
   \<and> maxScroll example_gap (layout 0 0 10 5 0) = (90, 95)"
  by (simp add: getMaxScroll_def getContentDimensions_def maxScroll_def contentExtent_def
      largest_def innerWidth_def innerHeight_def example_gap_def layout_def)

subsection \<open>scrollTo\<close>

lemma clamp_Math: "0 \<le> m \<Longrightarrow> Math_max (Fin 0) (Math_min v (Fin m)) = clamp m v"
  by (cases v) (auto simp: Math_max_def Math_min_def)

text \<open>
  Claim C2, as the code has it. \<open>scrollTo\<close> leaves an axis that is not given as it was. An
  axis that is given is stored clamped into \<open>[0, maxScroll]\<close> of that axis, whatever the other
  axis is: below 0 it becomes 0, above the maximum it becomes the maximum (which is never
  negative). A given \<open>NaN\<close> is not left out: it is stored.
\<close>

theorem scrollTo_clamps:
  "fst (scrollState (scrollTo element (None, ya) st)) = fst (scrollState st)
   \<and> snd (scrollState (scrollTo element (xa, None) st)) = snd (scrollState st)
   \<and> fst (scrollState (scrollTo element (Some v, ya) st)) = clamp (fst (getMaxScroll element)) v
   \<and> snd (scrollState (scrollTo element (xa, Some v) st)) = clamp (snd (getMaxScroll element)) v
   \<and> 0 \<le> fst (getMaxScroll element) \<and> 0 \<le> snd (getMaxScroll element)"
  using maxScroll_nonneg[of element]
  by (auto simp: scrollTo_def Let_def clamp_Math split: option.splits)

text \<open>
  The claim as written fails for the value \<open>NaN\<close>: it is not a number, yet the axis does not
  keep its value.
\<close>

theorem scrollTo_stores_NaN:
  "fst (scrollState (scrollTo example_container (Some NaN, None) initialBoxState))
     \<noteq> fst (scrollState initialBoxState)
   \<and> fst (scrollState initialBoxState) = Fin 0
   \<and> fst (scrollState (scrollTo example_container (Some NaN, None) initialBoxState)) = NaN"
  by (simp add: scrollTo_def Let_def initialBoxState_def Math_max_def Math_min_def)

subsection \<open>getBounds\<close>

lemma bounds_loop_sum:
  "bounds_loop p x y =
     (x + sum_list (map contribution_x (takeWhile has_geometry (ancestors p))),
      y + sum_list (map contribution_y (takeWhile has_geometry (ancestors p))))"
  by (induction p x y rule: bounds_loop.induct)
     (simp_all add: has_geometry_def contribution_x_def contribution_y_def)

text \<open>
  Claim C7, as the code has it. For a node with computed geometry, \<open>getBounds\<close> returns the
  node's width and height, and its own x and y plus those of its ancestors from the parent up
  to the first ancestor without geometry, which ends the walk. When every ancestor has
  geometry this is the frame-absolute position, the sum over every ancestor up to the root.
\<close>

theorem getBounds_sum:
  assumes "yogaNode element = Some yn"
  shows "getBounds element =
      (getComputedLeft yn + sum_list (map contribution_x (laid_out_ancestors element)),
       getComputedTop yn + sum_list (map contribution_y (laid_out_ancestors element)),
       getComputedWidth yn, getComputedHeight yn)
    \<and> (list_all has_geometry (ancestors (parentNode element)) \<longrightarrow>
         getBounds element = frame_absolute element yn)"
proof -
  let ?as = "ancestors (parentNode element)"
  have main: "getBounds element =
      (getComputedLeft yn + sum_list (map contribution_x (takeWhile has_geometry ?as)),
       getComputedTop yn + sum_list (map contribution_y (takeWhile has_geometry ?as)),
       getComputedWidth yn, getComputedHeight yn)"
    using assms by (simp add: getBounds_def Let_def bounds_loop_sum)
  show ?thesis
  proof (intro conjI impI)
    show "getBounds element =
      (getComputedLeft yn + sum_list (map contribution_x (laid_out_ancestors element)),
       getComputedTop yn + sum_list (map contribution_y (laid_out_ancestors element)),
       getComputedWidth yn, getComputedHeight yn)"
      unfolding laid_out_ancestors_def by (rule main)
  next
    assume "list_all has_geometry ?as"
    then have tw: "takeWhile has_geometry ?as = ?as"
      by (simp add: list_all_iff)
    show "getBounds element = frame_absolute element yn"
      unfolding frame_absolute_def by (simp only: main tw)
  qed
qed

theorem getBounds_sum_witness:
  "list_all has_geometry (ancestors (parentNode example_inner))
   \<and> getBounds example_inner = frame_absolute example_inner (layout 1 1 2 2 0)
   \<and> getBounds example_inner = (9, 12, 2, 2)"
proof -
  have y: "yogaNode example_inner = Some (layout 1 1 2 2 0)"
    by (simp add: example_inner_def)
  have a: "list_all has_geometry (ancestors (parentNode example_inner))"
    by (simp add: example_inner_def has_geometry_def)
  have f: "frame_absolute example_inner (layout 1 1 2 2 0) = (9, 12, 2, 2)"
    by (simp add: frame_absolute_def example_inner_def layout_def
        contribution_x_def contribution_y_def)
  from getBounds_sum[OF y] a
  have "getBounds example_inner = frame_absolute example_inner (layout 1 1 2 2 0)"
    by blast
  with a f show ?thesis by simp
qed

text \<open>
  The claim as written fails when an ancestor with geometry lies above one without: the
  walk stops below it, and its coordinate is not added.
\<close>

theorem getBounds_stops_at_gap:
  "yogaNode example_detached = Some (layout 1 1 2 2 0)
   \<and> getBounds example_detached \<noteq> frame_absolute example_detached (layout 1 1 2 2 0)
   \<and> getBounds example_detached = (1, 1, 2, 2)
   \<and> frame_absolute example_detached (layout 1 1 2 2 0) = (6, 8, 2, 2)"
  by (simp add: getBounds_def frame_absolute_def example_detached_def layout_def
      contribution_x_def contribution_y_def)

subsection \<open>The overflow of a Box\<close>

text \<open>
  Claim C10. On each axis the box gets the value given for that axis; without one, the value
  of the shorthand \<open>overflow\<close>; without that, \<open>visible\<close>. So the shorthand \<open>scroll\<close> alone makes
  both axes \<open>scroll\<close>, and a value given for an axis wins over the shorthand on that axis.
\<close>

theorem box_overflow_precedence:
  "overflowX (box_style style bg) =
     Some (case overflowX style of Some v \<Rightarrow> v
           | None \<Rightarrow> (case overflow style of Some v \<Rightarrow> v | None \<Rightarrow> Visible))
   \<and> overflowY (box_style style bg) =
     Some (case overflowY style of Some v \<Rightarrow> v
           | None \<Rightarrow> (case overflow style of Some v \<Rightarrow> v | None \<Rightarrow> Visible))
   \<and> overflowX (box_style (style\<lparr>overflow := Some Scroll, overflowX := None, overflowY := None\<rparr>) bg)
       = Some Scroll
   \<and> overflowY (box_style (style\<lparr>overflow := Some Scroll, overflowX := None, overflowY := None\<rparr>) bg)
       = Some Scroll
   \<and> overflowX (box_style (style\<lparr>overflow := Some w, overflowX := Some v\<rparr>) bg) = Some v
   \<and> overflowY (box_style (style\<lparr>overflow := Some w, overflowY := Some v\<rparr>) bg) = Some v
   \<and> isScrollContainer (style\<lparr>overflow := Some Scroll\<rparr>)"
proof -
  have x: "overflowX (box_style st bg) =
      nullish (nullish (overflowX st) (overflow st)) (Some Visible)" for st
    by (simp add: box_style_def)
  have y: "overflowY (box_style st bg) =
      nullish (nullish (overflowY st) (overflow st)) (Some Visible)" for st
    by (simp add: box_style_def)
  have n: "nullish (nullish a b) (Some Visible) =
      Some (case a of Some v \<Rightarrow> v | None \<Rightarrow> (case b of Some v \<Rightarrow> v | None \<Rightarrow> Visible))"
    for a b :: "overflow option"
    by (cases a; cases b) (simp_all add: nullish_def)
  show ?thesis
    unfolding x y n by (simp add: isScrollContainer_def)
qed

end
